theory Spec2Isabelle
  imports
    Main
    "HOL-Library.Sublist"
    "HOL-Library.Char_ord"
    "HOL-Library.List_Lexorder"
    "HOL-Library.Multiset"
begin

section \<open>Strings\<close>

text \<open>
  A JavaScript string is a sequence of code units. The model takes the code units
  0..255 (ASCII and Latin-1), one \<^typ>\<open>char\<close> each. On these,
  \<^verbatim>\<open>String.prototype.toLowerCase\<close> works unit by unit: the letters A..Z and the
  Latin-1 capitals U+00C0..U+00DE (without the multiplication sign U+00D7) move up
  by 32, every other unit stays.
\<close>

definition toLowerCase_char :: "char \<Rightarrow> char" where
  "toLowerCase_char c =
     (let n = (of_char c :: nat)
      in if (65 \<le> n \<and> n \<le> 90) \<or> (192 \<le> n \<and> n \<le> 222 \<and> n \<noteq> 215)
         then char_of (n + 32) else c)"

definition toLowerCase :: "string \<Rightarrow> string" where
  "toLowerCase s = map toLowerCase_char s"

text \<open>
  \<^verbatim>\<open>text.includes(pat)\<close>: some position of \<open>text\<close> starts with \<open>pat\<close>
  (the empty pattern is found in every text).
\<close>

fun str_includes :: "string \<Rightarrow> string \<Rightarrow> bool" where
  "str_includes [] pat = (pat = [])"
| "str_includes (c # cs) pat = (prefix pat (c # cs) \<or> str_includes cs pat)"

text \<open>
  \<^verbatim>\<open>s.replace(pat, rep)\<close> with a string pattern: only the first occurrence of
  \<open>pat\<close> is replaced, wherever it stands; without an occurrence \<open>s\<close> is
  returned as it is.
\<close>

fun str_replace :: "string \<Rightarrow> string \<Rightarrow> string \<Rightarrow> string" where
  "str_replace [] pat rep = (if pat = [] then rep else [])"
| "str_replace (c # cs) pat rep =
     (if prefix pat (c # cs) then rep @ drop (length pat) (c # cs)
      else c # str_replace cs pat rep)"

section \<open>Filter state\<close>

datatype mode = OR | AND

text \<open>
  \<^verbatim>\<open>this.state\<close> and the part of \<^verbatim>\<open>this.dom\<close> that rendering reads. The
  \<^verbatim>\<open>Set\<close> of active filters is the list of its elements in insertion order;
  \<open>container\<close> says that \<^verbatim>\<open>this.dom.container\<close> is not null.
\<close>

record app =
  tags :: "string list"
  activeFilters :: "string list"
  filterMode :: mode
  isDeleteMode :: bool
  container :: bool

definition constructor :: app where
  "constructor =
     \<lparr>tags = [], activeFilters = [], filterMode = OR, isDeleteMode = False,
      container = False\<rparr>"

definition Set_has :: "string list \<Rightarrow> string \<Rightarrow> bool" where
  "Set_has s x = (x \<in> set s)"

definition Set_add :: "string \<Rightarrow> string list \<Rightarrow> string list" where
  "Set_add x s = (if x \<in> set s then s else s @ [x])"

definition Set_delete :: "string \<Rightarrow> string list \<Rightarrow> string list" where
  "Set_delete x s = filter (\<lambda>y. y \<noteq> x) s"

section \<open>Rendering the control bar\<close>

record chip =
  chip_text :: string
  chip_classes :: "string list"

record bar =
  modeBtn :: chip
  tagBtns :: "chip list"
  input_disabled :: bool
  trash_active :: bool

definition createChip :: "string \<Rightarrow> string list \<Rightarrow> chip" where
  "createChip text classes =
     \<lparr>chip_text = text, chip_classes = ''filter-chip'' # classes\<rparr>"

definition chip_add_class :: "string \<Rightarrow> chip \<Rightarrow> chip" where
  "chip_add_class c d =
     (if c \<in> set (chip_classes d) then d
      else d\<lparr>chip_classes := chip_classes d @ [c]\<rparr>)"

text \<open>The body of the \<^verbatim>\<open>forEach\<close> in \<^verbatim>\<open>render\<close>: the chip of one tag.\<close>

definition tagBtn :: "app \<Rightarrow> string \<Rightarrow> chip" where
  "tagBtn a tag =
     (let clean = toLowerCase tag;
          active = Set_has (activeFilters a) clean;
          btn = createChip (CHR ''#'' # tag) (if active then [''active''] else [])
      in if isDeleteMode a then chip_add_class ''delete-mode-active'' btn else btn)"

text \<open>
  \<^verbatim>\<open>render\<close> returns early without a container. Otherwise it rebuilds the bar;
  \<^verbatim>\<open>this.state.tags.sort()\<close> sorts the stored array in place (by code units),
  so the state changes too.
\<close>

definition render :: "app \<Rightarrow> app \<times> bar option" where
  "render a =
     (if \<not> container a then (a, None)
      else
        let m = createChip (if filterMode a = OR then ''Any'' else ''All'') [''mode-btn''];
            m' = (if filterMode a = AND then chip_add_class ''mode-active'' m else m);
            a' = a\<lparr>tags := sort (tags a)\<rparr>
        in (a', Some \<lparr>modeBtn = m', tagBtns = map (tagBtn a') (tags a'),
                      input_disabled = isDeleteMode a', trash_active = isDeleteMode a'\<rparr>))"

definition render_state :: "app \<Rightarrow> app" where
  "render_state a = fst (render a)"

section \<open>Persistence and the tag vocabulary\<close>

text \<open>
  \<^verbatim>\<open>Storage.set\<close> has two branches. With \<^verbatim>\<open>chrome.storage.local\<close> the callback
  is delivered in a later turn, so the state at the return of the call is the one
  passed in; with the \<^verbatim>\<open>localStorage\<close> fallback the callback runs before the call
  returns. The callbacks of this program only render, which changes the state by
  \<^const>\<open>render_state\<close>.
\<close>

datatype backend = ChromeStorage | LocalStorage

definition Storage_set :: "backend \<Rightarrow> (app \<Rightarrow> app) \<Rightarrow> app \<Rightarrow> app" where
  "Storage_set b cb a = (case b of ChromeStorage \<Rightarrow> a | LocalStorage \<Rightarrow> cb a)"

text \<open>The normalisation in the first line of \<^verbatim>\<open>addTag\<close>.\<close>

definition normalize :: "string \<Rightarrow> string" where
  "normalize val = toLowerCase (str_replace val ''#'' '''')"

definition addTag :: "backend \<Rightarrow> string \<Rightarrow> app \<Rightarrow> app" where
  "addTag b val a =
     (let clean = normalize val
      in if clean \<notin> set (tags a)
         then Storage_set b render_state (a\<lparr>tags := tags a @ [clean]\<rparr>)
         else a)"

definition deleteTag :: "backend \<Rightarrow> string \<Rightarrow> app \<Rightarrow> app" where
  "deleteTag b tag a =
     Storage_set b render_state
       (a\<lparr>tags := filter (\<lambda>t. t \<noteq> tag) (tags a),
          activeFilters := Set_delete tag (activeFilters a)\<rparr>)"

text \<open>
  The click handler of a tag chip outside delete mode: \<open>active\<close> is the membership
  of the lowercased tag at the last render, which is the current one, since every
  change of the selection renders again.
\<close>

definition toggleFilter :: "string \<Rightarrow> app \<Rightarrow> app" where
  "toggleFilter tag a =
     (let clean = toLowerCase tag;
          active = Set_has (activeFilters a) clean
      in render_state
           (a\<lparr>activeFilters :=
                (if active then Set_delete clean (activeFilters a)
                 else Set_add clean (activeFilters a))\<rparr>))"

section \<open>Visibility of task rows\<close>

text \<open>
  A task row is a node of the host page. The model names what \<^verbatim>\<open>applyFilter\<close>
  reads and writes, the rendered text and the class tokens; everything else of
  the node is the extension part of the record.
\<close>

record row =
  innerText :: string
  classList :: "string list"

definition classList_remove :: "string \<Rightarrow> 'x row_scheme \<Rightarrow> 'x row_scheme" where
  "classList_remove c task = task\<lparr>classList := filter (\<lambda>d. d \<noteq> c) (classList task)\<rparr>"

definition classList_add :: "string \<Rightarrow> 'x row_scheme \<Rightarrow> 'x row_scheme" where
  "classList_add c task =
     (if c \<in> set (classList task) then task
      else task\<lparr>classList := classList task @ [c]\<rparr>)"

text \<open>The two loops over the active filters, with their accumulators.\<close>

definition matchCount :: "string \<Rightarrow> string list \<Rightarrow> nat" where
  "matchCount text fs =
     fold (\<lambda>tag n. if str_includes text (CHR ''#'' # tag) then n + 1 else n) fs 0"

definition allMatch :: "string \<Rightarrow> string list \<Rightarrow> bool" where
  "allMatch text fs =
     fold (\<lambda>tag b. if \<not> str_includes text (CHR ''#'' # tag) then False else b) fs True"

definition applyFilter_task :: "app \<Rightarrow> 'x row_scheme \<Rightarrow> 'x row_scheme" where
  "applyFilter_task a task =
     (let text = toLowerCase (innerText task)
      in if str_includes text ''add a task'' \<or> str_includes text ''create new''
         then classList_remove ''task-hidden'' task
         else if length (activeFilters a) = 0
         then classList_remove ''task-hidden'' task
         else
           let shouldShow =
                 (if filterMode a = OR then matchCount text (activeFilters a) > 0
                  else allMatch text (activeFilters a))
           in if shouldShow then classList_remove ''task-hidden'' task
              else classList_add ''task-hidden'' task)"

definition applyFilter :: "app \<Rightarrow> 'x row_scheme list \<Rightarrow> 'x row_scheme list" where
  "applyFilter a tasks = map (applyFilter_task a) tasks"

text \<open>A row is shown when it does not carry the class that the style sheet hides.\<close>

definition shown :: "'x row_scheme \<Rightarrow> bool" where
  "shown task = (''task-hidden'' \<notin> set (classList task))"

section \<open>The vocabulary invariant and the chip sequence\<close>

text \<open>
  The invariant of the tag vocabulary in two parts: no duplicate and every entry
  lowercase; and, on top of that, no entry that begins with \<open>#\<close>.
\<close>

definition TagSet_unique_lower :: "string list \<Rightarrow> bool" where
  "TagSet_unique_lower ts = (distinct ts \<and> list_all (\<lambda>t. toLowerCase t = t) ts)"

definition TagSet_invariant :: "string list \<Rightarrow> bool" where
  "TagSet_invariant ts =
     (TagSet_unique_lower ts \<and> list_all (\<lambda>t. \<not> prefix ''#'' t) ts)"

text \<open>The texts of the tag chips that a render puts into the bar, in their order.\<close>

definition chip_sequence :: "app \<Rightarrow> string list" where
  "chip_sequence a =
     (case snd (render a) of None \<Rightarrow> [] | Some br \<Rightarrow> map chip_text (tagBtns br))"

section \<open>Auxiliary facts\<close>

subsection \<open>Strings\<close>

lemmas lower_eval = toLowerCase_def toLowerCase_char_def char_of_def bit_Suc_0_iff

lemma str_includes_iff_sublist: "str_includes s pat \<longleftrightarrow> sublist pat s"
  by (induction s) (simp_all add: sublist_Cons_right)

lemma sublist_eval: "sublist pat s \<longleftrightarrow> str_includes s pat"
  by (simp add: str_includes_iff_sublist)

lemma sublist_single: "sublist [c] s \<longleftrightarrow> c \<in> set s"
  by (auto simp add: sublist_def in_set_conv_decomp)

lemma str_replace_hash: "str_replace s ''#'' '''' = remove1 CHR ''#'' s"
  by (induction s) auto

lemma toLowerCase_char_idem: "toLowerCase_char (toLowerCase_char c) = toLowerCase_char c"
proof (cases c)
  case (Char b0 b1 b2 b3 b4 b5 b6 b7)
  show ?thesis unfolding Char
    by (cases b0; cases b1; cases b2; cases b3; cases b4; cases b5; cases b6; cases b7;
        simp add: toLowerCase_char_def char_of_def bit_Suc_0_iff)
qed

lemma toLowerCase_char_hash: "toLowerCase_char c = CHR ''#'' \<longleftrightarrow> c = CHR ''#''"
proof (cases c)
  case (Char b0 b1 b2 b3 b4 b5 b6 b7)
  show ?thesis unfolding Char
    by (cases b0; cases b1; cases b2; cases b3; cases b4; cases b5; cases b6; cases b7;
        simp add: toLowerCase_char_def char_of_def bit_Suc_0_iff)
qed

lemma toLowerCase_idem: "toLowerCase (toLowerCase s) = toLowerCase s"
  by (simp add: toLowerCase_def toLowerCase_char_idem)

lemma hash_toLowerCase_char: "CHR ''#'' = toLowerCase_char c \<longleftrightarrow> c = CHR ''#''"
  using toLowerCase_char_hash [of c] by auto

lemma hash_toLowerCase_char_sym: "CHR ''#'' = toLowerCase_char c \<longleftrightarrow> CHR ''#'' = c"
  using toLowerCase_char_hash [of c] by auto

lemmas lower_hash = toLowerCase_char_hash hash_toLowerCase_char_sym

lemma hash_in_toLowerCase: "CHR ''#'' \<in> set (toLowerCase s) \<longleftrightarrow> CHR ''#'' \<in> set s"
  by (auto simp add: toLowerCase_def lower_hash)

lemma remove1_hash_toLowerCase:
  "remove1 CHR ''#'' (toLowerCase s) = toLowerCase (remove1 CHR ''#'' s)"
  by (induction s)
    (auto simp add: toLowerCase_def toLowerCase_char_hash hash_toLowerCase_char)

lemma prefix_hash_toLowerCase: "prefix ''#'' (toLowerCase s) \<longleftrightarrow> prefix ''#'' s"
  by (cases s) (simp_all add: toLowerCase_def lower_hash)


subsection \<open>Normalisation\<close>

lemma normalize_remove1: "normalize val = toLowerCase (remove1 CHR ''#'' val)"
  by (simp add: normalize_def str_replace_hash)

lemma normalize_twice:
  "normalize (normalize t) = toLowerCase (remove1 CHR ''#'' (remove1 CHR ''#'' t))"
  by (simp add: normalize_remove1 remove1_hash_toLowerCase toLowerCase_idem)

lemma mem_iff_count_list: "x \<in> set xs \<longleftrightarrow> 0 < count_list xs x"
  using count_list_0_iff [of xs x] by auto

lemma hash_in_remove1:
  "CHR ''#'' \<in> set (remove1 CHR ''#'' t) \<longleftrightarrow> 2 \<le> count_list t CHR ''#''"
  unfolding mem_iff_count_list by (simp only: count_list_remove1) auto

lemma length_remove1_less: "x \<in> set xs \<Longrightarrow> length (remove1 x xs) < length xs"
  by (induction xs) auto

lemma toLowerCase_normalize: "toLowerCase (normalize val) = normalize val"
  by (simp add: normalize_remove1 toLowerCase_idem)

lemma prefix_hash_normalize: "prefix ''#'' (normalize val) \<longleftrightarrow> prefix ''##'' val"
proof (cases val)
  case Nil
  then show ?thesis by (simp add: normalize_remove1 toLowerCase_def)
next
  case (Cons c cs)
  then show ?thesis
    by (cases cs; cases "c = CHR ''#''")
      (simp_all add: normalize_remove1 toLowerCase_def lower_hash)
qed


subsection \<open>The state after rendering and persisting\<close>

lemma tags_render_state:
  "tags (render_state a) = (if container a then sort (tags a) else tags a)"
  by (simp add: render_state_def render_def Let_def)

lemma activeFilters_render_state: "activeFilters (render_state a) = activeFilters a"
  by (simp add: render_state_def render_def Let_def)

lemma container_render_state: "container (render_state a) = container a"
  by (simp add: render_state_def render_def Let_def)

lemma set_tags_Storage_set: "set (tags (Storage_set b render_state a)) = set (tags a)"
  by (cases b) (simp_all add: Storage_set_def tags_render_state)

lemma distinct_tags_Storage_set:
  "distinct (tags (Storage_set b render_state a)) = distinct (tags a)"
  by (cases b) (simp_all add: Storage_set_def tags_render_state)

lemma activeFilters_Storage_set:
  "activeFilters (Storage_set b render_state a) = activeFilters a"
  by (cases b) (simp_all add: Storage_set_def activeFilters_render_state)

lemma set_tags_addTag: "set (tags (addTag b val a)) = insert (normalize val) (set (tags a))"
  by (auto simp add: addTag_def Let_def set_tags_Storage_set)

lemma distinct_tags_addTag: "distinct (tags a) \<Longrightarrow> distinct (tags (addTag b val a))"
  by (simp add: addTag_def Let_def distinct_tags_Storage_set)

lemma addTag_present: "normalize val \<in> set (tags a) \<Longrightarrow> addTag b val a = a"
  by (simp add: addTag_def)

lemma container_addTag: "container (addTag b val a) = container a"
  by (cases b) (simp_all add: addTag_def Let_def Storage_set_def container_render_state)

lemma tags_addTag_new:
  "normalize val \<notin> set (tags a) \<Longrightarrow>
   tags (addTag b val a) =
     (if b = LocalStorage \<and> container a then sort (tags a @ [normalize val])
      else tags a @ [normalize val])"
  by (cases b) (simp_all add: addTag_def Let_def Storage_set_def tags_render_state)

lemma activeFilters_toggleFilter:
  "activeFilters (toggleFilter tag a) =
     (if toLowerCase tag \<in> set (activeFilters a)
      then Set_delete (toLowerCase tag) (activeFilters a)
      else Set_add (toLowerCase tag) (activeFilters a))"
  by (simp add: toggleFilter_def Let_def Set_has_def activeFilters_render_state)


subsection \<open>Chips\<close>

lemma chip_text_add_class: "chip_text (chip_add_class c d) = chip_text d"
  by (simp add: chip_add_class_def)

lemma chip_text_tagBtn: "chip_text (tagBtn a tag) = CHR ''#'' # tag"
  by (simp add: tagBtn_def Let_def chip_text_add_class createChip_def)

lemma chip_sequence_eq:
  "chip_sequence a = (if container a then map ((#) CHR ''#'') (sort (tags a)) else [])"
  by (simp add: chip_sequence_def render_def Let_def chip_text_tagBtn comp_def)

lemma sorted_map_Cons: "sorted (map ((#) c) xs) = sorted xs"
  by (induction xs) simp_all


subsection \<open>Rows\<close>

lemma shown_classList_remove: "shown (classList_remove ''task-hidden'' task)"
  by (simp add: shown_def classList_remove_def)

lemma shown_classList_add: "\<not> shown (classList_add ''task-hidden'' task)"
  by (simp add: shown_def classList_add_def)

lemma fold_matchCount:
  "fold (\<lambda>tag n. if P tag then n + 1 else n) fs (k::nat) = k + length (filter P fs)"
  by (induction fs arbitrary: k) simp_all

lemma matchCount_pos:
  "matchCount s fs > 0 \<longleftrightarrow> (\<exists>t\<in>set fs. sublist (CHR ''#'' # t) s)"
  by (simp add: matchCount_def fold_matchCount str_includes_iff_sublist filter_empty_conv
      del: str_includes.simps)

lemma fold_allMatch:
  "fold (\<lambda>tag b. if \<not> P tag then False else b) fs b0 \<longleftrightarrow> b0 \<and> (\<forall>t\<in>set fs. P t)"
  by (induction fs arbitrary: b0) auto

lemma allMatch_iff:
  "allMatch s fs \<longleftrightarrow> (\<forall>t\<in>set fs. sublist (CHR ''#'' # t) s)"
  by (simp add: allMatch_def fold_allMatch str_includes_iff_sublist)

text \<open>The decision of \<^verbatim>\<open>applyFilter\<close> for one row, in terms of substrings.\<close>

lemma shown_applyFilter_task:
  "shown (applyFilter_task a task) \<longleftrightarrow>
     sublist ''add a task'' (toLowerCase (innerText task)) \<or>
     sublist ''create new'' (toLowerCase (innerText task)) \<or>
     activeFilters a = [] \<or>
     (if filterMode a = OR
      then \<exists>t\<in>set (activeFilters a). sublist (CHR ''#'' # t) (toLowerCase (innerText task))
      else \<forall>t\<in>set (activeFilters a). sublist (CHR ''#'' # t) (toLowerCase (innerText task)))"
  unfolding applyFilter_task_def Let_def
  by (simp add: shown_classList_remove shown_classList_add matchCount_pos allMatch_iff
      str_includes_iff_sublist del: str_includes.simps)

lemma applyFilter_task_cases:
  "applyFilter_task a task = classList_remove ''task-hidden'' task \<or>
   applyFilter_task a task = classList_add ''task-hidden'' task"
  by (simp add: applyFilter_task_def Let_def)

lemma frame_classList_remove:
  "innerText (classList_remove c task) = innerText task \<and>
   row.more (classList_remove c task) = row.more task \<and>
   filter (\<lambda>d. d \<noteq> c) (classList (classList_remove c task)) =
     filter (\<lambda>d. d \<noteq> c) (classList task)"
  by (simp add: classList_remove_def)

lemma frame_classList_add:
  "innerText (classList_add c task) = innerText task \<and>
   row.more (classList_add c task) = row.more task \<and>
   filter (\<lambda>d. d \<noteq> c) (classList (classList_add c task)) =
     filter (\<lambda>d. d \<noteq> c) (classList task)"
  by (simp add: classList_add_def)

section \<open>Membership of the active tags\<close>

text \<open>
  C1 (amended). For every task row whose case-folded text contains neither of the
  two exemption phrases, and every non-empty selection of active filters:
  in OR mode \<^verbatim>\<open>applyFilter\<close> marks the row shown iff for at least one active tag
  \<open>t\<close> the string \<open>#t\<close> is a substring of the case-folded text; in AND mode iff
  this holds for every active tag. In particular, with the active filters work and
  urgent, such a row with \<open>#work\<close> and without \<open>#urgent\<close> is shown under OR and
  hidden under AND.
\<close>

theorem applyFilter_membership:
  assumes "\<not> sublist ''add a task'' (toLowerCase (innerText task))"
    and "\<not> sublist ''create new'' (toLowerCase (innerText task))"
    and "activeFilters a \<noteq> []"
  shows "(filterMode a = OR \<longrightarrow>
            (shown (applyFilter_task a task) \<longleftrightarrow>
               (\<exists>t\<in>set (activeFilters a).
                  sublist (CHR ''#'' # t) (toLowerCase (innerText task))))) \<and>
         (filterMode a = AND \<longrightarrow>
            (shown (applyFilter_task a task) \<longleftrightarrow>
               (\<forall>t\<in>set (activeFilters a).
                  sublist (CHR ''#'' # t) (toLowerCase (innerText task))))) \<and>
         (set (activeFilters a) = {''work'', ''urgent''} \<and>
          sublist ''#work'' (toLowerCase (innerText task)) \<and>
          \<not> sublist ''#urgent'' (toLowerCase (innerText task)) \<longrightarrow>
            (shown (applyFilter_task a task) \<longleftrightarrow> filterMode a = OR))"
  using assms by (auto simp add: shown_applyFilter_task)

theorem applyFilter_membership_witness:
  "shown (applyFilter_task
      \<lparr>tags = [''urgent'', ''work''], activeFilters = [''work'', ''urgent''],
       filterMode = OR, isDeleteMode = False, container = True\<rparr>
      \<lparr>innerText = ''Finish report #Work'', classList = [''task-hidden'']\<rparr>) \<and>
   \<not> shown (applyFilter_task
      \<lparr>tags = [''urgent'', ''work''], activeFilters = [''work'', ''urgent''],
       filterMode = AND, isDeleteMode = False, container = True\<rparr>
      \<lparr>innerText = ''Finish report #Work'', classList = []\<rparr>)"
proof -
  let ?s = "''Finish report #Work''"
  have n1: "\<not> sublist ''add a task'' (toLowerCase ?s)"
    and n2: "\<not> sublist ''create new'' (toLowerCase ?s)"
    and w: "sublist ''#work'' (toLowerCase ?s)"
    and u: "\<not> sublist ''#urgent'' (toLowerCase ?s)"
    by (simp_all add: sublist_eval lower_eval)
  show ?thesis
    using applyFilter_membership
      [of "\<lparr>innerText = ?s, classList = [''task-hidden'']\<rparr>"
          "\<lparr>tags = [''urgent'', ''work''], activeFilters = [''work'', ''urgent''],
            filterMode = OR, isDeleteMode = False, container = True\<rparr>"]
      applyFilter_membership
      [of "\<lparr>innerText = ?s, classList = []\<rparr>"
          "\<lparr>tags = [''urgent'', ''work''], activeFilters = [''work'', ''urgent''],
            filterMode = AND, isDeleteMode = False, container = True\<rparr>"]
      n1 n2 w u
    by (simp add: insert_commute)
qed

text \<open>
  Without the restriction the statement fails: a row with the text "Add a task" is
  shown under OR although it has no \<open>#work\<close>, and "Add a task #work" is shown
  under AND although it has no \<open>#urgent\<close>.
\<close>

theorem applyFilter_membership_counterexample:
  "shown (applyFilter_task
      \<lparr>tags = [''work''], activeFilters = [''work''],
       filterMode = OR, isDeleteMode = False, container = True\<rparr>
      \<lparr>innerText = ''Add a task'', classList = [''task-hidden'']\<rparr>) \<and>
   \<not> sublist ''#work'' (toLowerCase ''Add a task'') \<and>
   shown (applyFilter_task
      \<lparr>tags = [''urgent'', ''work''], activeFilters = [''work'', ''urgent''],
       filterMode = AND, isDeleteMode = False, container = True\<rparr>
      \<lparr>innerText = ''Add a task #work'', classList = [''task-hidden'']\<rparr>) \<and>
   sublist ''#work'' (toLowerCase ''Add a task #work'') \<and>
   \<not> sublist ''#urgent'' (toLowerCase ''Add a task #work'')"
  by (simp add: sublist_eval applyFilter_task_def shown_def classList_remove_def lower_eval)

section \<open>Normalisation as a fixed point\<close>

text \<open>
  C2 (amended). The normalisation of \<^verbatim>\<open>addTag\<close> removes the first \<open>#\<close> of its
  input and lowercases. Normalising a second time changes nothing exactly for the
  inputs with at most one \<open>#\<close>.
\<close>

theorem normalize_fixed_point:
  "normalize (normalize t) = normalize t \<longleftrightarrow> count_list t CHR ''#'' \<le> 1"
proof (cases "CHR ''#'' \<in> set (remove1 CHR ''#'' t)")
  case True
  then have "length (remove1 CHR ''#'' (remove1 CHR ''#'' t)) < length (remove1 CHR ''#'' t)"
    by (rule length_remove1_less)
  moreover have "length (normalize (normalize t)) =
      length (remove1 CHR ''#'' (remove1 CHR ''#'' t))"
    by (simp only: normalize_twice toLowerCase_def length_map)
  moreover have "length (normalize t) = length (remove1 CHR ''#'' t)"
    by (simp only: normalize_remove1 toLowerCase_def length_map)
  ultimately have "length (normalize (normalize t)) < length (normalize t)"
    by simp
  then have "normalize (normalize t) \<noteq> normalize t"
    by auto
  moreover from True have "\<not> count_list t CHR ''#'' \<le> 1"
    by (simp add: hash_in_remove1)
  ultimately show ?thesis by simp
next
  case False
  then have "remove1 CHR ''#'' (remove1 CHR ''#'' t) = remove1 CHR ''#'' t"
    by (rule remove1_idem)
  then have "normalize (normalize t) = normalize t"
    by (simp only: normalize_twice) (simp only: normalize_remove1)
  moreover from False have "count_list t CHR ''#'' \<le> 1"
    by (simp add: hash_in_remove1)
  ultimately show ?thesis by simp
qed

theorem normalize_fixed_point_witness:
  "normalize (normalize ''#Work'') = normalize ''#Work'' \<and> normalize ''#Work'' = ''work''"
  using normalize_fixed_point [of "''#Work''"]
  by (simp add: normalize_def lower_eval)

text \<open>
  For \<open>##a\<close> the first normalisation gives \<open>#a\<close> and the second gives \<open>a\<close>.
\<close>

theorem normalize_fixed_point_counterexample:
  "normalize (normalize ''##a'') \<noteq> normalize ''##a''"
  by (simp add: normalize_def lower_eval)

section \<open>The vocabulary invariant under addTag\<close>

text \<open>
  C3 (amended). \<^verbatim>\<open>addTag\<close> normalises its input by removing the first \<open>#\<close>
  and lowercasing; it does not trim. After every call on a vocabulary without
  duplicates whose entries are lowercase, the vocabulary is again without
  duplicates and lowercase. If moreover no entry began with \<open>#\<close> and the input
  does not begin with \<open>##\<close>, no entry begins with \<open>#\<close> afterwards.
\<close>

theorem addTag_invariant:
  "normalize val = toLowerCase (remove1 CHR ''#'' val) \<and>
   (TagSet_unique_lower (tags a) \<longrightarrow> TagSet_unique_lower (tags (addTag b val a))) \<and>
   (TagSet_invariant (tags a) \<and> \<not> prefix ''##'' val \<longrightarrow>
      TagSet_invariant (tags (addTag b val a)))"
proof -
  have u: "TagSet_unique_lower (tags (addTag b val a))" if "TagSet_unique_lower (tags a)"
    using that
    by (simp add: TagSet_unique_lower_def list_all_iff set_tags_addTag
        distinct_tags_addTag toLowerCase_normalize)
  have "TagSet_invariant (tags (addTag b val a))"
    if "TagSet_invariant (tags a)" and "\<not> prefix ''##'' val"
    using that u
    by (simp add: TagSet_invariant_def list_all_iff set_tags_addTag prefix_hash_normalize)
  with u show ?thesis
    by (simp add: normalize_remove1)
qed

theorem addTag_invariant_witness:
  "TagSet_invariant (tags (addTag LocalStorage ''#Work''
      \<lparr>tags = [''home''], activeFilters = [], filterMode = OR, isDeleteMode = False,
       container = True\<rparr>)) \<and>
   tags (addTag LocalStorage ''#Work''
      \<lparr>tags = [''home''], activeFilters = [], filterMode = OR, isDeleteMode = False,
       container = True\<rparr>) = [''home'', ''work'']"
proof -
  have i: "TagSet_invariant (tags
      \<lparr>tags = [''home''], activeFilters = [], filterMode = OR, isDeleteMode = False,
       container = True\<rparr>)"
    by (simp add: TagSet_invariant_def TagSet_unique_lower_def lower_eval)
  have p: "\<not> prefix ''##'' ''#Work''"
    by simp
  have t: "tags (addTag LocalStorage ''#Work''
      \<lparr>tags = [''home''], activeFilters = [], filterMode = OR, isDeleteMode = False,
       container = True\<rparr>) = [''home'', ''work'']"
    by (simp add: addTag_def normalize_def Storage_set_def tags_render_state lower_eval)
  from addTag_invariant [of "''#Work''"
      "\<lparr>tags = [''home''], activeFilters = [], filterMode = OR, isDeleteMode = False,
       container = True\<rparr>" LocalStorage] i p t
  show ?thesis by blast
qed

text \<open>
  From the empty vocabulary, the input \<open>##a\<close> stores the tag \<open>#a\<close>, which
  breaks the invariant, and an input with blanks around it is stored with them.
\<close>

theorem addTag_invariant_counterexample:
  "TagSet_invariant (tags constructor) \<and>
   tags (addTag ChromeStorage ''##a'' constructor) = [''#a''] \<and>
   \<not> TagSet_invariant (tags (addTag ChromeStorage ''##a'' constructor)) \<and>
   tags (addTag ChromeStorage '' a '' constructor) = ['' a '']"
  by (simp add: TagSet_invariant_def TagSet_unique_lower_def constructor_def addTag_def
      normalize_def Storage_set_def lower_eval)

section \<open>The exempt row\<close>

text \<open>
  C4. For every filter state, a task row whose case-folded text contains the phrase
  "add a task" is marked shown by \<^verbatim>\<open>applyFilter\<close>, also with active filters none
  of which the row matches.
\<close>

theorem add_task_row_always_shown:
  assumes "i < length tasks"
    and "sublist ''add a task'' (toLowerCase (innerText (tasks ! i)))"
  shows "shown (applyFilter a tasks ! i)"
  using assms by (simp add: applyFilter_def shown_applyFilter_task)

theorem add_task_row_always_shown_witness:
  "\<not> sublist ''#work'' (toLowerCase ''Add a task'') \<and>
   shown (applyFilter
      \<lparr>tags = [''work''], activeFilters = [''work''],
       filterMode = AND, isDeleteMode = False, container = True\<rparr>
      [\<lparr>innerText = ''Buy milk'', classList = []\<rparr>,
       \<lparr>innerText = ''Add a task'', classList = [''task-hidden'']\<rparr>] ! 1)"
proof -
  have h: "sublist ''add a task''
             (toLowerCase (innerText ([\<lparr>innerText = ''Buy milk'', classList = []\<rparr>,
       \<lparr>innerText = ''Add a task'', classList = [''task-hidden'']\<rparr>] ! 1)))"
    by (simp add: sublist_eval lower_eval)
  have n: "\<not> sublist ''#work'' (toLowerCase ''Add a task'')"
    by (simp add: sublist_eval lower_eval)
  show ?thesis
    using add_task_row_always_shown [OF _ h, of
      "\<lparr>tags = [''work''], activeFilters = [''work''],
       filterMode = AND, isDeleteMode = False, container = True\<rparr>"] n
    by simp
qed

section \<open>Empty selection\<close>

text \<open>
  C5. With no active filter, \<^verbatim>\<open>applyFilter\<close> keeps the number and order of the
  task rows and marks every one of them shown, for every text of the row and for
  both filter modes: each row comes back as itself without the class
  \<open>task-hidden\<close>.
\<close>

theorem applyFilter_empty_shows_all:
  assumes "activeFilters a = []"
  shows "length (applyFilter a tasks) = length tasks \<and>
         (\<forall>i<length tasks.
            shown (applyFilter a tasks ! i) \<and>
            applyFilter a tasks ! i = classList_remove ''task-hidden'' (tasks ! i))"
proof -
  have "applyFilter_task a task = classList_remove ''task-hidden'' task"
    for task :: "'a row_scheme"
    using assms by (simp add: applyFilter_task_def Let_def)
  then show ?thesis
    by (simp add: applyFilter_def shown_classList_remove)
qed

theorem applyFilter_empty_shows_all_witness:
  "activeFilters (constructor\<lparr>filterMode := AND\<rparr>) = [] \<and>
   applyFilter (constructor\<lparr>filterMode := AND\<rparr>)
     [\<lparr>innerText = ''Buy milk #home'', classList = [''row'', ''task-hidden'']\<rparr>,
      \<lparr>innerText = ''Call Bob'', classList = []\<rparr>] =
     [\<lparr>innerText = ''Buy milk #home'', classList = [''row'']\<rparr>,
      \<lparr>innerText = ''Call Bob'', classList = []\<rparr>] \<and>
   shown (applyFilter (constructor\<lparr>filterMode := AND\<rparr>)
     [\<lparr>innerText = ''Buy milk #home'', classList = [''row'', ''task-hidden'']\<rparr>,
      \<lparr>innerText = ''Call Bob'', classList = []\<rparr>] ! 0) \<and>
   shown (applyFilter (constructor\<lparr>filterMode := AND\<rparr>)
     [\<lparr>innerText = ''Buy milk #home'', classList = [''row'', ''task-hidden'']\<rparr>,
      \<lparr>innerText = ''Call Bob'', classList = []\<rparr>] ! 1)"
proof -
  let ?a = "constructor\<lparr>filterMode := AND\<rparr>"
  let ?r0 = "\<lparr>innerText = ''Buy milk #home'', classList = [''row'', ''task-hidden'']\<rparr>"
  let ?r1 = "\<lparr>innerText = ''Call Bob'', classList = []\<rparr>"
  have h: "activeFilters ?a = []"
    by (simp add: constructor_def)
  note t = applyFilter_empty_shows_all [OF h, of "[?r0, ?r1]"]
  have i0: "(0::nat) < length [?r0, ?r1]" and i1: "(1::nat) < length [?r0, ?r1]"
    by simp_all
  from t i0 have 0: "shown (applyFilter ?a [?r0, ?r1] ! 0)"
    by blast
  from t i1 have 1: "shown (applyFilter ?a [?r0, ?r1] ! 1)"
    by blast
  have "applyFilter ?a [?r0, ?r1] =
      [\<lparr>innerText = ''Buy milk #home'', classList = [''row'']\<rparr>, ?r1]"
    by (simp add: applyFilter_def applyFilter_task_def constructor_def
        classList_remove_def lower_eval)
  with h 0 1 show ?thesis
    by blast
qed

section \<open>Deleting an active tag\<close>

text \<open>
  C6. For every tag that is in the vocabulary and among the active filters, one call
  of \<^verbatim>\<open>deleteTag\<close> removes it from both; the other entries of both stay.
\<close>

theorem deleteTag_removes:
  assumes "tag \<in> set (tags a)" and "tag \<in> set (activeFilters a)"
  shows "tag \<notin> set (tags (deleteTag b tag a)) \<and>
         tag \<notin> set (activeFilters (deleteTag b tag a)) \<and>
         set (tags (deleteTag b tag a)) = set (tags a) - {tag} \<and>
         set (activeFilters (deleteTag b tag a)) = set (activeFilters a) - {tag}"
  by (auto simp add: deleteTag_def set_tags_Storage_set activeFilters_Storage_set
      Set_delete_def)

theorem deleteTag_removes_witness:
  "tags (deleteTag LocalStorage ''work''
      \<lparr>tags = [''home'', ''work''], activeFilters = [''work'', ''home''], filterMode = AND,
       isDeleteMode = True, container = True\<rparr>) = [''home''] \<and>
   activeFilters (deleteTag LocalStorage ''work''
      \<lparr>tags = [''home'', ''work''], activeFilters = [''work'', ''home''], filterMode = AND,
       isDeleteMode = True, container = True\<rparr>) = [''home''] \<and>
   ''work'' \<notin> set (tags (deleteTag LocalStorage ''work''
      \<lparr>tags = [''home'', ''work''], activeFilters = [''work'', ''home''], filterMode = AND,
       isDeleteMode = True, container = True\<rparr>))"
proof -
  let ?a = "\<lparr>tags = [''home'', ''work''], activeFilters = [''work'', ''home''],
             filterMode = AND, isDeleteMode = True, container = True\<rparr>"
  have h1: "''work'' \<in> set (tags ?a)" and h2: "''work'' \<in> set (activeFilters ?a)"
    by simp_all
  have e: "tags (deleteTag LocalStorage ''work'' ?a) = [''home'']"
    "activeFilters (deleteTag LocalStorage ''work'' ?a) = [''home'']"
    by (simp_all add: deleteTag_def Storage_set_def tags_render_state
        activeFilters_render_state Set_delete_def)
  from deleteTag_removes [OF h1 h2, of LocalStorage] e show ?thesis
    by blast
qed

section \<open>Adding a tag twice\<close>

text \<open>
  C7. For every input and every state, a second \<^verbatim>\<open>addTag\<close> with the same input
  changes nothing, whether or not the bar was rendered in between.
\<close>

theorem addTag_twice:
  "addTag b t (addTag b t a) = addTag b t a \<and>
   addTag b t (render_state (addTag b t a)) = render_state (addTag b t a)"
proof -
  have "normalize t \<in> set (tags (addTag b t a))"
    by (simp add: set_tags_addTag)
  moreover from this have "normalize t \<in> set (tags (render_state (addTag b t a)))"
    by (simp add: tags_render_state)
  ultimately show ?thesis
    by (simp add: addTag_present)
qed

theorem addTag_twice_witness:
  "tags (addTag ChromeStorage ''#Work'' (addTag ChromeStorage ''#Work'' constructor)) = [''work''] \<and>
   tags (addTag ChromeStorage ''#Work'' constructor) = [''work'']"
proof -
  have "tags (addTag ChromeStorage ''#Work'' constructor) = [''work'']"
    by (simp add: addTag_def normalize_def Storage_set_def constructor_def lower_eval)
  with addTag_twice [of ChromeStorage "''#Work''" constructor] show ?thesis
    by simp
qed

section \<open>Order of the chips\<close>

text \<open>
  C8. The tag chips of every render are in lexicographic order: their texts are
  those of the sorted vocabulary, each behind a \<open>#\<close>, whatever the order of
  insertion. After adding zebra and then apple to the empty vocabulary, the chip of
  apple stands before the chip of zebra.
\<close>

theorem chips_sorted:
  "sorted (chip_sequence a) \<and>
   (container a \<longrightarrow>
      chip_sequence a = map ((#) CHR ''#'') (sort (tags a)) \<and>
      mset (chip_sequence a) = mset (map ((#) CHR ''#'') (tags a))) \<and>
   chip_sequence
     (addTag b ''apple'' (addTag b ''zebra'' (constructor\<lparr>container := True\<rparr>))) =
     [''#apple'', ''#zebra'']"
proof -
  let ?a0 = "constructor\<lparr>container := True\<rparr>"
  let ?a1 = "addTag b ''zebra'' ?a0"
  let ?a2 = "addTag b ''apple'' ?a1"
  have s: "sorted (chip_sequence a)"
    by (simp add: chip_sequence_eq sorted_map_Cons)
  have n: "normalize ''zebra'' = ''zebra''" "normalize ''apple'' = ''apple''"
    by (simp_all add: normalize_def lower_eval)
  have z: "tags (addTag b' ''zebra'' ?a0) = [''zebra'']" for b'
    by (simp add: tags_addTag_new n constructor_def)
  have "sort (tags ?a2) = [''apple'', ''zebra'']"
    by (simp add: tags_addTag_new n z container_addTag)
  moreover have "container ?a2"
    by (simp add: container_addTag)
  ultimately have "chip_sequence ?a2 = [''#apple'', ''#zebra'']"
    by (simp add: chip_sequence_eq)
  with s show ?thesis
    by (simp add: chip_sequence_eq)
qed

theorem chips_sorted_witness:
  "chip_sequence
     \<lparr>tags = [''zebra'', ''apple'', ''mango''], activeFilters = [''apple''],
      filterMode = OR, isDeleteMode = False, container = True\<rparr> =
   [''#apple'', ''#mango'', ''#zebra'']"
  using chips_sorted [of
     "\<lparr>tags = [''zebra'', ''apple'', ''mango''], activeFilters = [''apple''],
      filterMode = OR, isDeleteMode = False, container = True\<rparr>"]
  by simp

section \<open>What applyFilter changes\<close>

text \<open>
  C9. \<^verbatim>\<open>applyFilter\<close> returns the rows in their number and order. For every row
  it either removes or adds the class \<open>task-hidden\<close>; the text, the other
  classes with their order, and everything else of the row stay as they were.
\<close>

theorem applyFilter_frame:
  "length (applyFilter a tasks) = length tasks \<and>
   (\<forall>i<length tasks.
      innerText (applyFilter a tasks ! i) = innerText (tasks ! i) \<and>
      row.more (applyFilter a tasks ! i) = row.more (tasks ! i) \<and>
      filter (\<lambda>d. d \<noteq> ''task-hidden'') (classList (applyFilter a tasks ! i)) =
        filter (\<lambda>d. d \<noteq> ''task-hidden'') (classList (tasks ! i)) \<and>
      (applyFilter a tasks ! i = classList_remove ''task-hidden'' (tasks ! i) \<or>
       applyFilter a tasks ! i = classList_add ''task-hidden'' (tasks ! i)))"
proof -
  have "innerText (applyFilter_task a task) = innerText task \<and>
     row.more (applyFilter_task a task) = row.more task \<and>
     filter (\<lambda>d. d \<noteq> ''task-hidden'') (classList (applyFilter_task a task)) =
       filter (\<lambda>d. d \<noteq> ''task-hidden'') (classList task) \<and>
     (applyFilter_task a task = classList_remove ''task-hidden'' task \<or>
      applyFilter_task a task = classList_add ''task-hidden'' task)"
    for task :: "'a row_scheme"
    using applyFilter_task_cases [of a task] frame_classList_remove [of "''task-hidden''" task]
      frame_classList_add [of "''task-hidden''" task]
    by auto
  then show ?thesis
    by (simp add: applyFilter_def)
qed

theorem applyFilter_frame_witness:
  "applyFilter
     \<lparr>tags = [''work''], activeFilters = [''work''], filterMode = OR,
      isDeleteMode = False, container = True\<rparr>
     [\<lparr>innerText = ''Buy milk'', classList = [''row'', ''done'']\<rparr>,
      \<lparr>innerText = ''Report #work'', classList = [''task-hidden'', ''row'']\<rparr>] =
     [\<lparr>innerText = ''Buy milk'', classList = [''row'', ''done'', ''task-hidden'']\<rparr>,
      \<lparr>innerText = ''Report #work'', classList = [''row'']\<rparr>] \<and>
   length (applyFilter
     \<lparr>tags = [''work''], activeFilters = [''work''], filterMode = OR,
      isDeleteMode = False, container = True\<rparr>
     [\<lparr>innerText = ''Buy milk'', classList = [''row'', ''done'']\<rparr>,
      \<lparr>innerText = ''Report #work'', classList = [''task-hidden'', ''row'']\<rparr>]) = 2"
proof -
  have "applyFilter
     \<lparr>tags = [''work''], activeFilters = [''work''], filterMode = OR,
      isDeleteMode = False, container = True\<rparr>
     [\<lparr>innerText = ''Buy milk'', classList = [''row'', ''done'']\<rparr>,
      \<lparr>innerText = ''Report #work'', classList = [''task-hidden'', ''row'']\<rparr>] =
     [\<lparr>innerText = ''Buy milk'', classList = [''row'', ''done'', ''task-hidden'']\<rparr>,
      \<lparr>innerText = ''Report #work'', classList = [''row'']\<rparr>]"
    by (simp add: applyFilter_def applyFilter_task_def matchCount_def classList_remove_def
        classList_add_def lower_eval)
  with applyFilter_frame [of
     "\<lparr>tags = [''work''], activeFilters = [''work''], filterMode = OR,
      isDeleteMode = False, container = True\<rparr>"
     "[\<lparr>innerText = ''Buy milk'', classList = [''row'', ''done'']\<rparr>,
      \<lparr>innerText = ''Report #work'', classList = [''task-hidden'', ''row'']\<rparr>]"]
  show ?thesis by simp
qed

section \<open>The empty tag\<close>

text \<open>
  C10. \<^verbatim>\<open>addTag\<close> accepts an input that normalises to the empty string: the
  input \<open>#\<close> puts the empty tag into the vocabulary unless it is there already,
  and a click on its chip makes it active. The test for the empty tag looks for the
  substring \<open>#\<close>, so every row with a \<open>#\<close> in its text matches it.
\<close>

theorem empty_tag_accepted:
  "normalize ''#'' = '''' \<and>
   set (tags (addTag b ''#'' a)) = insert '''' (set (tags a)) \<and>
   ('''' \<notin> set (tags a) \<longrightarrow> tags (addTag ChromeStorage ''#'' a) = tags a @ ['''']) \<and>
   ('''' \<notin> set (activeFilters a) \<longrightarrow>
      activeFilters (toggleFilter '''' a) = activeFilters a @ ['''']) \<and>
   (str_includes (toLowerCase s) (CHR ''#'' # '''') \<longleftrightarrow> CHR ''#'' \<in> set s) \<and>
   ('''' \<in> set (activeFilters a) \<and> filterMode a = OR \<and> CHR ''#'' \<in> set (innerText task)
      \<longrightarrow> shown (applyFilter_task a task)) \<and>
   (activeFilters a = [''''] \<and>
    \<not> sublist ''add a task'' (toLowerCase (innerText task)) \<and>
    \<not> sublist ''create new'' (toLowerCase (innerText task))
      \<longrightarrow> (shown (applyFilter_task a task) \<longleftrightarrow> CHR ''#'' \<in> set (innerText task)))"
proof -
  have n: "normalize ''#'' = ''''"
    by (simp add: normalize_def toLowerCase_def)
  have m: "sublist (CHR ''#'' # '''') (toLowerCase s) \<longleftrightarrow> CHR ''#'' \<in> set s" for s
    by (simp add: sublist_single hash_in_toLowerCase)
  have o: "shown (applyFilter_task a task)"
    if "'''' \<in> set (activeFilters a)" "filterMode a = OR" "CHR ''#'' \<in> set (innerText task)"
    using that m [of "innerText task"] by (auto simp add: shown_applyFilter_task)
  have e: "shown (applyFilter_task a task) \<longleftrightarrow> CHR ''#'' \<in> set (innerText task)"
    if "activeFilters a = ['''']"
      "\<not> sublist ''add a task'' (toLowerCase (innerText task))"
      "\<not> sublist ''create new'' (toLowerCase (innerText task))"
    using that m [of "innerText task"] by (simp add: shown_applyFilter_task)
  have t: "activeFilters (toggleFilter '''' a) = activeFilters a @ ['''']"
    if "'''' \<notin> set (activeFilters a)"
    using that by (simp add: activeFilters_toggleFilter toLowerCase_def Set_add_def)
  have "str_includes (toLowerCase s) (CHR ''#'' # '''') \<longleftrightarrow> CHR ''#'' \<in> set s"
    using m [of s] by (simp only: str_includes_iff_sublist)
  with n o e t show ?thesis
    by (simp add: set_tags_addTag tags_addTag_new)
qed

theorem empty_tag_accepted_witness:
  "tags (addTag ChromeStorage ''#'' constructor) = [''''] \<and>
   activeFilters (toggleFilter '''' constructor) = [''''] \<and>
   shown (applyFilter_task
     \<lparr>tags = [''''], activeFilters = [''''], filterMode = OR, isDeleteMode = False,
      container = True\<rparr>
     \<lparr>innerText = ''Pay bill #finance'', classList = [''task-hidden'']\<rparr>) \<and>
   \<not> shown (applyFilter_task
     \<lparr>tags = [''''], activeFilters = [''''], filterMode = OR, isDeleteMode = False,
      container = True\<rparr>
     \<lparr>innerText = ''Pay bill'', classList = []\<rparr>)"
proof -
  let ?a = "\<lparr>tags = [''''], activeFilters = [''''], filterMode = OR, isDeleteMode = False,
      container = True\<rparr>"
  have x: "\<not> sublist ''add a task'' (toLowerCase ''Pay bill #finance'')"
    "\<not> sublist ''create new'' (toLowerCase ''Pay bill #finance'')"
    "\<not> sublist ''add a task'' (toLowerCase ''Pay bill'')"
    "\<not> sublist ''create new'' (toLowerCase ''Pay bill'')"
    by (simp_all add: sublist_eval lower_eval)
  have c: "'''' \<notin> set (tags constructor)"
    by (simp add: constructor_def)
  from empty_tag_accepted [of ChromeStorage constructor "''x''"
      "\<lparr>innerText = ''Pay bill #finance'', classList = [''task-hidden'']\<rparr>"] c
  have 1: "tags (addTag ChromeStorage ''#'' constructor) = ['''']"
    by (simp add: constructor_def)
  from empty_tag_accepted [of ChromeStorage ?a "''x''"
      "\<lparr>innerText = ''Pay bill #finance'', classList = [''task-hidden'']\<rparr>"] x
  have 2: "shown (applyFilter_task ?a
      \<lparr>innerText = ''Pay bill #finance'', classList = [''task-hidden'']\<rparr>)"
    by simp
  from empty_tag_accepted [of ChromeStorage ?a "''x''"
      "\<lparr>innerText = ''Pay bill'', classList = []\<rparr>"] x
  have 3: "\<not> shown (applyFilter_task ?a \<lparr>innerText = ''Pay bill'', classList = []\<rparr>)"
    by simp
  from empty_tag_accepted [of ChromeStorage constructor "''x''"
      "\<lparr>innerText = ''Pay bill'', classList = []\<rparr>"]
  have 4: "activeFilters (toggleFilter '''' constructor) = ['''']"
    by (simp add: constructor_def)
  from 1 2 3 4 show ?thesis by simp
qed

end
